theory Spec2Isabelle
  imports Main
begin

section \<open>Python values used by the engine\<close>

text \<open>
  Python strings are modelled as \<^typ>\<open>string\<close>; a \<^typ>\<open>char\<close> stands for a code point
  below 256. Exceptions are values of \<open>py_error\<close>; a function that may raise returns
  \<open>py_error + 'a\<close>.
\<close>

datatype py_error =
  IndexError | KeyError | ValueError | TypeError | AttributeError | OverflowError

text \<open>\<^verbatim>\<open>str.isspace\<close> on one character, which is also what \<^verbatim>\<open>\s\<close> matches.\<close>

definition py_isspace :: "char \<Rightarrow> bool" where
  "py_isspace c =
     (let n = (of_char c :: nat)
      in (9 \<le> n \<and> n \<le> 13) \<or> (28 \<le> n \<and> n \<le> 31) \<or> n = 32 \<or> n = 133 \<or> n = 160)"

text \<open>\<^verbatim>\<open>s.strip()\<close>\<close>

definition strip :: "string \<Rightarrow> string" where
  "strip s = rev (dropWhile py_isspace (rev (dropWhile py_isspace s)))"

text \<open>\<^verbatim>\<open>s.split()\<close>: the maximal runs of non-whitespace characters.\<close>

fun split_ws :: "string \<Rightarrow> string list" where
  "split_ws [] = []"
| "split_ws (c # cs) =
     (if py_isspace c then split_ws cs
      else (case split_ws cs of
              [] \<Rightarrow> [[c]]
            | w # ws \<Rightarrow> (case cs of
                          [] \<Rightarrow> [[c]]
                        | d # _ \<Rightarrow> if py_isspace d then [c] # w # ws else (c # w) # ws)))"

section \<open>Data classes\<close>

record Persona =
  name :: string
  personality :: string
  stance :: string
  age :: int
  gender :: string
  model :: string
  background :: string
  speaker_wav_path :: string
  relationships :: "(string \<times> string) list"

record InterruptionBid =
  importance :: int
  interrupt_after_word :: string
  interruption_text :: string
  interrupter_name :: string

definition INTERRUPTION_THRESHOLD :: int where
  "INTERRUPTION_THRESHOLD = 6"

section \<open>Arbitration of the collected bids\<close>

text \<open>
  \<^verbatim>\<open>interrupt_bids = [b for b in all_bids if b and b.importance >= INTERRUPTION_THRESHOLD]\<close>,
  where \<open>all_bids\<close> is the list \<^verbatim>\<open>asyncio.gather\<close> returns, in the order of the requests,
  and an entry is \<open>None\<close> when the persona made no bid.
\<close>

fun interrupt_bids :: "InterruptionBid option list \<Rightarrow> InterruptionBid list" where
  "interrupt_bids [] = []"
| "interrupt_bids (None # bs) = interrupt_bids bs"
| "interrupt_bids (Some b # bs) =
     (if importance b \<ge> INTERRUPTION_THRESHOLD then b # interrupt_bids bs
      else interrupt_bids bs)"

text \<open>
  \<^verbatim>\<open>max(xs, key=k)\<close> on a non-empty list: the running maximum is replaced only by an
  element whose key is strictly greater.
\<close>

fun max_from :: "('a \<Rightarrow> int) \<Rightarrow> 'a \<Rightarrow> 'a list \<Rightarrow> 'a" where
  "max_from k best [] = best"
| "max_from k best (x # xs) = max_from k (if k x > k best then x else best) xs"

text \<open>The decision of one turn: \<open>None\<close> when \<open>interrupt_bids\<close> is empty, else the winning bid.\<close>

definition winning_bid :: "InterruptionBid option list \<Rightarrow> InterruptionBid option" where
  "winning_bid all_bids =
     (case interrupt_bids all_bids of
        [] \<Rightarrow> None
      | b # bs \<Rightarrow> Some (max_from importance b bs))"

section \<open>The NEXT_SPEAKER directive\<close>

definition ascii_lower :: "char \<Rightarrow> char" where
  "ascii_lower c =
     (let n = (of_char c :: nat) in if 65 \<le> n \<and> n \<le> 90 then char_of (n + 32) else c)"

text \<open>The character class \<^verbatim>\<open>[a-zA-Z0-9]\<close>.\<close>

definition is_alnum :: "char \<Rightarrow> bool" where
  "is_alnum c =
     (let n = (of_char c :: nat)
      in (48 \<le> n \<and> n \<le> 57) \<or> (65 \<le> n \<and> n \<le> 90) \<or> (97 \<le> n \<and> n \<le> 122))"

text \<open>\<^verbatim>\<open>re.sub(r'[^a-zA-Z0-9]', '', s).lower()\<close>\<close>

definition normalize_name :: "string \<Rightarrow> string" where
  "normalize_name s = map ascii_lower (filter is_alnum s)"

text \<open>Does the text begin with the literal, compared exactly or ignoring case?\<close>

fun starts_with :: "string \<Rightarrow> string \<Rightarrow> bool" where
  "starts_with [] s = True"
| "starts_with (m # ms) [] = False"
| "starts_with (m # ms) (c # cs) = (m = c \<and> starts_with ms cs)"

fun starts_with_ci :: "string \<Rightarrow> string \<Rightarrow> bool" where
  "starts_with_ci [] s = True"
| "starts_with_ci (m # ms) [] = False"
| "starts_with_ci (m # ms) (c # cs) = (ascii_lower m = ascii_lower c \<and> starts_with_ci ms cs)"

definition NEXT_SPEAKER :: string where
  "NEXT_SPEAKER = ''NEXT_SPEAKER:''"

text \<open>The text before the first position at which \<open>P\<close> holds of the rest; all of it if none.\<close>

fun text_before :: "(string \<Rightarrow> bool) \<Rightarrow> string \<Rightarrow> string" where
  "text_before P [] = []"
| "text_before P (c # cs) = (if P (c # cs) then [] else c # text_before P cs)"

text \<open>\<^verbatim>\<open>potential_response.split("NEXT_SPEAKER:")[0]\<close>: the marker is compared exactly.\<close>

definition split_marker_first :: "string \<Rightarrow> string" where
  "split_marker_first s = text_before (starts_with NEXT_SPEAKER) s"

text \<open>
  \<^verbatim>\<open>re.sub(r"NEXT_SPEAKER:.*", "", s, flags=re.IGNORECASE | re.DOTALL)\<close>: with DOTALL the
  first match runs to the end of the text, so everything from the first marker on goes.
\<close>

definition remove_directive :: "string \<Rightarrow> string" where
  "remove_directive s = text_before (starts_with_ci NEXT_SPEAKER) s"

text \<open>
  \<^verbatim>\<open>re.search(r"NEXT_SPEAKER:\s*\[?(.*?)\]?$", s, re.IGNORECASE)\<close>, as the backtracking
  matcher runs it; the result is \<open>group(1)\<close>, or \<open>None\<close> when nothing matches. Without
  MULTILINE \<^verbatim>\<open>$\<close> holds at the end of the text and before a final newline; without
  DOTALL \<^verbatim>\<open>.\<close> is any character but the newline.
\<close>

definition at_end :: "string \<Rightarrow> bool" where
  "at_end t = (t = [] \<or> t = [CHR 0x0A])"

text \<open>\<^verbatim>\<open>\]?$\<close>: first with the bracket taken, then without it.\<close>

definition close_and_end :: "string \<Rightarrow> bool" where
  "close_and_end t = ((case t of c # r \<Rightarrow> c = CHR '']'' \<and> at_end r | [] \<Rightarrow> False) \<or> at_end t)"

text \<open>\<^verbatim>\<open>(.*?)\]?$\<close>: the lazy group grows one character at a time; \<open>acc\<close> is the group so far, reversed.\<close>

fun lazy_group :: "string \<Rightarrow> string \<Rightarrow> string option" where
  "lazy_group acc [] = (if close_and_end [] then Some (rev acc) else None)"
| "lazy_group acc (c # cs) =
     (if close_and_end (c # cs) then Some (rev acc)
      else if c = CHR 0x0A then None
      else lazy_group (c # acc) cs)"

text \<open>\<^verbatim>\<open>\[?(.*?)\]?$\<close>: first with the bracket taken, then without it.\<close>

definition open_and_group :: "string \<Rightarrow> string option" where
  "open_and_group t =
     (case t of
        [] \<Rightarrow> lazy_group [] []
      | c # u \<Rightarrow>
          if c = CHR ''[''
          then (case lazy_group [] u of Some g \<Rightarrow> Some g | None \<Rightarrow> lazy_group [] t)
          else lazy_group [] t)"

text \<open>\<^verbatim>\<open>\s*\[?(.*?)\]?$\<close>: the greedy star takes a character and gives it back when the rest fails.\<close>

fun directive_tail :: "string \<Rightarrow> string option" where
  "directive_tail [] = open_and_group []"
| "directive_tail (c # cs) =
     (if py_isspace c
      then (case directive_tail cs of Some g \<Rightarrow> Some g | None \<Rightarrow> open_and_group (c # cs))
      else open_and_group (c # cs))"

text \<open>The search tries each start position from the left.\<close>

fun next_speaker_match :: "string \<Rightarrow> string option" where
  "next_speaker_match [] = None"
| "next_speaker_match (c # cs) =
     (if starts_with_ci NEXT_SPEAKER (c # cs)
      then (case directive_tail (drop (length NEXT_SPEAKER) (c # cs)) of
              Some g \<Rightarrow> Some g
            | None \<Rightarrow> next_speaker_match cs)
      else next_speaker_match cs)"

section \<open>Choosing the next speaker\<close>

text \<open>
  \<^verbatim>\<open>persona_map = {normalize(p.name): p.name for p in self.personas}\<close>: a later persona
  with the same normalised name replaces an earlier one.
\<close>

definition persona_map :: "Persona list \<Rightarrow> (string \<rightharpoonup> string)" where
  "persona_map ps = fold (\<lambda>p m. m(normalize_name (name p) \<mapsto> name p)) ps Map.empty"

text \<open>\<^verbatim>\<open>[p.name for p in self.personas if p.name != current_speaker_name]\<close>\<close>

definition other_names :: "Persona list \<Rightarrow> string \<Rightarrow> string list" where
  "other_names ps cur = map name (filter (\<lambda>p. name p \<noteq> cur) ps)"

text \<open>
  \<^verbatim>\<open>random.choice(seq)\<close> is \<^verbatim>\<open>seq[self._randbelow(len(seq))]\<close> and raises IndexError on an
  empty sequence. The number \<open>k\<close> stands for the generator's raw draw; the index drawn
  below \<open>len(seq)\<close> is \<open>k mod len(seq)\<close>.
\<close>

definition random_choice :: "nat \<Rightarrow> 'a list \<Rightarrow> py_error + 'a" where
  "random_choice k xs = (if xs = [] then Inl IndexError else Inr (xs ! (k mod length xs)))"

text \<open>
  The speaker-selection step of a turn without interruption (the lines after the cleaned
  response is committed): the new value of \<open>current_speaker_name\<close>.
\<close>

definition select_next_speaker :: "Persona list \<Rightarrow> string \<Rightarrow> string \<Rightarrow> nat \<Rightarrow> py_error + string" where
  "select_next_speaker ps cur potential_response k =
     (case next_speaker_match potential_response of
        Some g \<Rightarrow>
          (let candidate = strip g;
               normalized_candidate = normalize_name candidate
           in case persona_map ps normalized_candidate of
                Some n \<Rightarrow> if n \<noteq> cur then Inr n else random_choice k (other_names ps cur)
              | None \<Rightarrow> random_choice k (other_names ps cur))
      | None \<Rightarrow> random_choice k (other_names ps cur))"

text \<open>The persona the directive of a response names, if it names one.\<close>

definition nominated :: "Persona list \<Rightarrow> string \<Rightarrow> string option" where
  "nominated ps potential_response =
     (case next_speaker_match potential_response of
        Some g \<Rightarrow> persona_map ps (normalize_name (strip g))
      | None \<Rightarrow> None)"

text \<open>\<^verbatim>\<open>Persona(name, personality, stance, age, gender)\<close> with the defaults of the data class.\<close>

definition new_persona :: "string \<Rightarrow> string \<Rightarrow> string \<Rightarrow> int \<Rightarrow> string \<Rightarrow> Persona" where
  "new_persona n per sta a g =
     \<lparr>name = n, personality = per, stance = sta, age = a, gender = g, model = ''llama3:8b'',
      background = [], speaker_wav_path = [], relationships = []\<rparr>"

section \<open>The model call and the parsing of a bid\<close>

text \<open>
  What \<^verbatim>\<open>_call_ollama\<close> meets: status 200 (\<open>Reply s\<close>, with \<open>s\<close> the text the method returns
  after removing the persona's name from the front and stripping), another status, or an
  exception inside the \<^verbatim>\<open>try\<close>. The method returns a string in each case.
\<close>

datatype ollama_outcome = Reply string | BadStatus nat | Raised

fun digits :: "nat \<Rightarrow> nat \<Rightarrow> string" where
  "digits 0 n = []"
| "digits (Suc f) n =
     (if n < 10 then [char_of (48 + n)] else digits f (n div 10) @ [char_of (48 + n mod 10)])"

text \<open>Decimal digits of a number, as an f-string prints it (\<open>n + 1\<close> digits always suffice).\<close>

definition str_nat :: "nat \<Rightarrow> string" where
  "str_nat n = digits (Suc n) n"

fun call_ollama :: "ollama_outcome \<Rightarrow> string" where
  "call_ollama (Reply s) = s"
| "call_ollama (BadStatus n) = ''[Error: API Error '' @ str_nat n @ '']''"
| "call_ollama Raised = ''[Error: Connection Failed]''"

text \<open>
  \<^verbatim>\<open>re.search(r"\{{.*?\}}", r, re.DOTALL)\<close>: in this raw string the pattern is the two
  characters \<^verbatim>\<open>{{\<close>, a lazy run of any characters, and the two characters \<^verbatim>\<open>}}\<close> (a brace
  that opens no repetition count is a literal). The result is \<open>group(0)\<close>.
\<close>

fun lazy_to_close :: "string \<Rightarrow> string \<Rightarrow> string option" where
  "lazy_to_close acc [] = None"
| "lazy_to_close acc (c # cs) =
     (if starts_with ''}}'' (c # cs) then Some (rev acc @ ''}}'')
      else lazy_to_close (c # acc) cs)"

fun search_braces :: "string \<Rightarrow> string option" where
  "search_braces [] = None"
| "search_braces (c # cs) =
     (if starts_with ''{{'' (c # cs)
      then (case lazy_to_close [] (drop 2 (c # cs)) of
              Some m \<Rightarrow> Some (''{{'' @ m)
            | None \<Rightarrow> search_braces cs)
      else search_braces cs)"

text \<open>\<^verbatim>\<open>js.replace("'", '"')\<close>\<close>

definition replace_quotes :: "string \<Rightarrow> string" where
  "replace_quotes js = map (\<lambda>c. if c = CHR 0x27 then CHR 0x22 else c) js"

text \<open>
  \<^verbatim>\<open>re.sub(r",(\s*[\}\]])", r"\1", js)\<close>: a comma goes when only whitespace separates it from
  a closing brace or bracket; the whitespace and the closer stay.
\<close>

definition closer_follows :: "string \<Rightarrow> bool" where
  "closer_follows cs =
     (case dropWhile py_isspace cs of [] \<Rightarrow> False | d # _ \<Rightarrow> d = CHR ''}'' \<or> d = CHR '']'')"

fun drop_trailing_commas :: "string \<Rightarrow> string" where
  "drop_trailing_commas [] = []"
| "drop_trailing_commas (c # cs) =
     (if c = CHR '','' \<and> closer_follows cs then drop_trailing_commas cs
      else c # drop_trailing_commas cs)"

text \<open>
  \<^verbatim>\<open>re.sub(r'\|(?!["\\/bfnrtu])', r'\\\\', js)\<close>: a vertical bar that is not followed by one
  of the listed characters becomes two backslashes.
\<close>

fun replace_bars :: "string \<Rightarrow> string" where
  "replace_bars [] = []"
| "replace_bars (c # cs) =
     (if c = CHR ''|'' \<and> \<not> (case cs of [] \<Rightarrow> False
                                 | d # _ \<Rightarrow> d \<in> set [CHR 0x22, CHR 0x5C, CHR ''/'', CHR ''b'',
                                                     CHR ''f'', CHR ''n'', CHR ''r'', CHR ''t'', CHR ''u''])
      then CHR 0x5C # CHR 0x5C # replace_bars cs
      else c # replace_bars cs)"

text \<open>The values \<^verbatim>\<open>json.loads\<close> builds.\<close>

datatype py_float = Finite int int | Infinite bool | NaN

datatype json =
    JNull
  | JBool bool
  | JInt int
  | JFloat py_float
  | JStr string
  | JArr "json list"
  | JObj "(string \<times> json) list"

text \<open>
  \<^verbatim>\<open>json.loads\<close> is the standard library's. Its first steps are modelled: blanks before the
  document are skipped, and in a document that opens with a brace the next character after
  further blanks has to be a double quote (a key) or the closing brace, else the decoder
  raises JSONDecodeError (\<open>None\<close> here). All the rest of the decoder is the parameter
  \<open>decode\<close>.
\<close>

definition json_blank :: "char \<Rightarrow> bool" where
  "json_blank c = (c = CHR '' '' \<or> c = CHR 0x09 \<or> c = CHR 0x0A \<or> c = CHR 0x0D)"

definition json_loads :: "(string \<Rightarrow> json option) \<Rightarrow> string \<Rightarrow> json option" where
  "json_loads decode js =
     (case dropWhile json_blank js of
        [] \<Rightarrow> None
      | c # t \<Rightarrow>
          if c = CHR ''{''
          then (case dropWhile json_blank t of
                  [] \<Rightarrow> None
                | d # _ \<Rightarrow> if d = CHR 0x22 \<or> d = CHR ''}'' then decode js else None)
          else decode js)"

text \<open>\<^verbatim>\<open>_robust_json_parse\<close>\<close>

definition robust_json_parse :: "(string \<Rightarrow> json option) \<Rightarrow> string \<Rightarrow> json option" where
  "robust_json_parse decode r =
     (case search_braces r of
        None \<Rightarrow> None
      | Some m \<Rightarrow> json_loads decode (replace_bars (drop_trailing_commas (replace_quotes m))))"

text \<open>Truth value of a decoded value, for \<^verbatim>\<open>not bd\<close> and \<^verbatim>\<open>x or ""\<close>.\<close>

fun truthy :: "json \<Rightarrow> bool" where
  "truthy JNull = False"
| "truthy (JBool b) = b"
| "truthy (JInt n) = (n \<noteq> 0)"
| "truthy (JFloat f) = (case f of Finite m e \<Rightarrow> m \<noteq> 0 | _ \<Rightarrow> True)"
| "truthy (JStr s) = (s \<noteq> [])"
| "truthy (JArr xs) = (xs \<noteq> [])"
| "truthy (JObj kvs) = (kvs \<noteq> [])"

text \<open>\<^verbatim>\<open>(bd.get(key) or "").strip()\<close>: a true value that is no string has no \<^verbatim>\<open>strip\<close>.\<close>

definition get_stripped :: "(string \<times> json) list \<Rightarrow> string \<Rightarrow> py_error + string" where
  "get_stripped kvs key =
     (case map_of kvs key of
        None \<Rightarrow> Inr (strip [])
      | Some v \<Rightarrow>
          if \<not> truthy v then Inr (strip [])
          else (case v of JStr s \<Rightarrow> Inr (strip s) | _ \<Rightarrow> Inl AttributeError))"

text \<open>
  \<^verbatim>\<open>bid_for_interruption\<close>, from the outcome of its model call. \<open>py_int\<close> is Python's
  \<^verbatim>\<open>int(...)\<close> on a decoded value, a parameter; of the errors it may raise ValueError is
  caught, as KeyError would be. The arguments of the constructor are evaluated left to
  right; the call itself passes the keyword \<^verbatim>\<open>interrupt_text\<close>, which the data class does
  not have, so it raises TypeError.
\<close>

definition bid_for_interruption ::
  "(string \<Rightarrow> json option) \<Rightarrow> (json \<Rightarrow> py_error + int) \<Rightarrow> string \<Rightarrow> ollama_outcome
     \<Rightarrow> py_error + InterruptionBid option" where
  "bid_for_interruption decode py_int persona_name outcome =
     (let r = call_ollama outcome; bd = robust_json_parse decode r
      in case bd of
           None \<Rightarrow> Inr None
         | Some v \<Rightarrow>
             if \<not> truthy v then Inr None
             else (case v of
                     JObj kvs \<Rightarrow>
                       (case py_int (case map_of kvs ''importance'' of None \<Rightarrow> JInt 0 | Some x \<Rightarrow> x) of
                          Inl e \<Rightarrow> if e = ValueError \<or> e = KeyError then Inr None else Inl e
                        | Inr imp \<Rightarrow>
                            (case get_stripped kvs ''interrupt_after_word'' of
                               Inl e \<Rightarrow> Inl e
                             | Inr after_word \<Rightarrow>
                                 (case get_stripped kvs ''interruption_text'' of
                                    Inl e \<Rightarrow> Inl e
                                  | Inr text \<Rightarrow> Inl TypeError)))
                   | _ \<Rightarrow> Inl AttributeError))"

text \<open>
  \<^verbatim>\<open>await asyncio.gather(*bid_tasks)\<close>: the results in the order of the tasks; an exception
  raised by a task is raised to the caller.
\<close>

fun gather :: "(py_error + 'a) list \<Rightarrow> py_error + 'a list" where
  "gather [] = Inr []"
| "gather (Inl e # rs) = Inl e"
| "gather (Inr x # rs) = (case gather rs of Inl e \<Rightarrow> Inl e | Inr xs \<Rightarrow> Inr (x # xs))"

section \<open>The podcast and its transcript\<close>

record entry =
  timestamp :: string
  speaker :: string
  line :: string

text \<open>
  The fields of a \<^verbatim>\<open>Podcast\<close> that the turn loop reads and writes, with the queue it was
  given, the lines written to the transcript log file, and the two local variables of
  \<^verbatim>\<open>run\<close>. The audio fields and the callbacks are left out: they only produce output.
\<close>

record podcast =
  topic :: string
  personas :: "Persona list"
  num_turns :: int
  injection_queue :: "string list"
  transcript :: "entry list"
  conversation_history :: "string list"
  word_counts :: "string \<rightharpoonup> int"
  turn_counts :: "string \<rightharpoonup> int"
  interruption_counts :: "string \<rightharpoonup> int"
  log_file :: "string list"
  current_speaker_name :: string
  line_idx :: nat

text \<open>\<^verbatim>\<open>Podcast.__init__\<close>; the locals of \<^verbatim>\<open>run\<close> get their values in \<^verbatim>\<open>run\<close>.\<close>

definition new_podcast :: "string \<Rightarrow> Persona list \<Rightarrow> int \<Rightarrow> string list \<Rightarrow> podcast" where
  "new_podcast tp ps n queue =
     \<lparr>topic = tp, personas = ps, num_turns = n, injection_queue = queue,
      transcript = [], conversation_history = [],
      word_counts = map_of (map (\<lambda>p. (name p, 0)) ps),
      turn_counts = map_of (map (\<lambda>p. (name p, 0)) ps),
      interruption_counts = map_of (map (\<lambda>p. (name p, 0)) ps),
      log_file = [], current_speaker_name = [], line_idx = 0\<rparr>"

text \<open>\<^verbatim>\<open>d.get(key, 0)\<close>\<close>

definition get0 :: "(string \<rightharpoonup> int) \<Rightarrow> string \<Rightarrow> int" where
  "get0 d key = (case d key of None \<Rightarrow> 0 | Some n \<Rightarrow> n)"

text \<open>\<^verbatim>\<open>_update_analytics\<close>\<close>

definition update_analytics :: "string \<Rightarrow> string \<Rightarrow> podcast \<Rightarrow> podcast" where
  "update_analytics spk ln st =
     (let st1 = st\<lparr>word_counts :=
                     (word_counts st)(spk \<mapsto> get0 (word_counts st) spk + int (length (split_ws ln)))\<rparr>
      in if spk \<noteq> ''Moderator'' \<and> spk \<noteq> ''Director''
         then st1\<lparr>turn_counts := (turn_counts st1)(spk \<mapsto> get0 (turn_counts st1) spk + 1)\<rparr>
         else st1)"

text \<open>
  \<^verbatim>\<open>_add_to_transcript\<close>; \<open>now\<close> is the reading of the clock, formatted. The method does not
  use \<open>line_index\<close> except to name the audio file.
\<close>

definition add_to_transcript :: "string \<Rightarrow> string \<Rightarrow> string \<Rightarrow> nat \<Rightarrow> podcast \<Rightarrow> podcast" where
  "add_to_transcript now spk ln line_index st =
     st\<lparr>transcript := transcript st @ [\<lparr>timestamp = now, speaker = spk, line = ln\<rparr>],
        conversation_history := conversation_history st @ [spk @ '': '' @ ln],
        log_file := log_file st @ [''['' @ now @ ''] '' @ spk @ '': '' @ ln @ [CHR 0x0A]]\<rparr>"

section \<open>The turn loop\<close>

text \<open>
  What the loop gets from outside: the clock (asked at the \<open>n\<close>-th entry of the
  transcript), the outcome of the model call behind \<^verbatim>\<open>generate_full_response\<close> (for the
  speaker, the history and the turn number) and behind each \<^verbatim>\<open>bid_for_interruption\<close> (for
  the bidder, the speaker, the pending response, the history and the turn number), the
  random generator's draw in a turn, and the two library functions of the bid parser.
\<close>

record world =
  clock :: "nat \<Rightarrow> string"
  response_outcome :: "string \<Rightarrow> string list \<Rightarrow> nat \<Rightarrow> ollama_outcome"
  bid_outcome :: "string \<Rightarrow> string \<Rightarrow> string \<Rightarrow> string list \<Rightarrow> nat \<Rightarrow> ollama_outcome"
  draw :: "nat \<Rightarrow> nat"
  decode :: "string \<Rightarrow> json option"
  py_int :: "json \<Rightarrow> py_error + int"

text \<open>An entry is added at the current \<open>line_idx\<close>, which then goes up by one.\<close>

definition add_line :: "world \<Rightarrow> string \<Rightarrow> string \<Rightarrow> podcast \<Rightarrow> podcast" where
  "add_line w spk ln st =
     (add_to_transcript (clock w (length (transcript st))) spk ln (line_idx st) st)
       \<lparr>line_idx := line_idx st + 1\<rparr>"

text \<open>
  The first injection check of the loop body: \<^verbatim>\<open>while not self.injection_queue.empty()\<close>
  takes every queued line, oldest first, and adds it as a line of the Director. The list
  is the queue; the loop runs once for each of its lines.
\<close>

fun drain_as_director :: "world \<Rightarrow> string list \<Rightarrow> podcast \<Rightarrow> podcast" where
  "drain_as_director w [] st = st\<lparr>injection_queue := []\<rparr>"
| "drain_as_director w (injection_text # rest) st =
     drain_as_director w rest (add_line w ''Director'' injection_text (st\<lparr>injection_queue := rest\<rparr>))"

text \<open>
  The second injection check: \<^verbatim>\<open>if not self.injection_queue.empty()\<close> takes one line and adds
  it as a line of the Moderator; the \<^verbatim>\<open>else\<close> branch only logs. The statements after it are
  not part of either branch.
\<close>

definition inject_as_moderator :: "world \<Rightarrow> podcast \<Rightarrow> podcast" where
  "inject_as_moderator w st =
     (case injection_queue st of
        [] \<Rightarrow> st
      | injection_text # rest \<Rightarrow> add_line w ''Moderator'' injection_text (st\<lparr>injection_queue := rest\<rparr>))"

text \<open>
  The end of the loop body, from the bids \<^verbatim>\<open>asyncio.gather\<close> returned: the interruption
  branch or the branch that commits the cleaned response and chooses the next speaker.
\<close>

definition commit_turn ::
  "world \<Rightarrow> nat \<Rightarrow> string \<Rightarrow> InterruptionBid option list \<Rightarrow> podcast \<Rightarrow> py_error + podcast" where
  "commit_turn w i potential_response all_bids st =
     (case winning_bid all_bids of
        Some wb \<Rightarrow>
          (let st1 = add_line w (current_speaker_name st)
                       (strip (split_marker_first potential_response)) st;
               st2 = add_line w (interrupter_name wb) (interruption_text wb) st1
           in Inr (st2\<lparr>current_speaker_name := interrupter_name wb\<rparr>))
      | None \<Rightarrow>
          (let cleaned_response = strip (remove_directive potential_response);
               st1 = add_line w (current_speaker_name st) cleaned_response st
           in case select_next_speaker (personas st1) (current_speaker_name st1)
                     potential_response (draw w i) of
                Inl e \<Rightarrow> Inl e
              | Inr n \<Rightarrow> Inr (st1\<lparr>current_speaker_name := n\<rparr>)))"

text \<open>
  The requests for bids, one for each persona other than the speaker, in roster order.
\<close>

definition collect_bids :: "world \<Rightarrow> nat \<Rightarrow> string \<Rightarrow> podcast \<Rightarrow> py_error + InterruptionBid option list" where
  "collect_bids w i potential_response st =
     gather (map (\<lambda>p. bid_for_interruption (decode w) (py_int w) (name p)
                         (bid_outcome w (name p) (current_speaker_name st) potential_response
                            (conversation_history st) (i + 1)))
                 (filter (\<lambda>p. name p \<noteq> current_speaker_name st) (personas st)))"

text \<open>
  One pass through the body of \<^verbatim>\<open>for i in range(self.num_turns)\<close>. The source repeats the
  loop header after the first injection check, with no body of its own: the statements
  that follow are indented as the body of the first header, and are modelled so.
  \<^verbatim>\<open>self.characters[current_speaker_name]\<close> raises KeyError for a name that is no persona's.
\<close>

definition turn :: "world \<Rightarrow> nat \<Rightarrow> podcast \<Rightarrow> py_error + podcast" where
  "turn w i st0 =
     (let st1 = drain_as_director w (injection_queue st0) st0;
          st = inject_as_moderator w st1
      in if current_speaker_name st \<notin> set (map name (personas st)) then Inl KeyError
         else
           (let potential_response =
                  call_ollama (response_outcome w (current_speaker_name st)
                                 (conversation_history st) (i + 1))
            in case collect_bids w i potential_response st of
                 Inl e \<Rightarrow> Inl e
               | Inr all_bids \<Rightarrow> commit_turn w i potential_response all_bids st))"

fun turns :: "world \<Rightarrow> nat list \<Rightarrow> podcast \<Rightarrow> py_error + podcast" where
  "turns w [] st = Inr st"
| "turns w (i # is) st = (case turn w i st of Inl e \<Rightarrow> Inl e | Inr st' \<Rightarrow> turns w is st')"

text \<open>
  The start of \<^verbatim>\<open>run\<close>: the welcome line of the Moderator, then
  \<^verbatim>\<open>current_speaker_name = self.personas[0].name\<close>, which raises IndexError on an empty roster.
\<close>

definition start :: "world \<Rightarrow> podcast \<Rightarrow> py_error + podcast" where
  "start w st =
     (let st1 = add_line w ''Moderator''
                  (''Welcome! Today'' @ [CHR 0x27] @ ''s topic is: '' @ topic st @ ''.'')
                  (st\<lparr>line_idx := 0\<rparr>)
      in case personas st1 of
           [] \<Rightarrow> Inl IndexError
         | p # _ \<Rightarrow> Inr (st1\<lparr>current_speaker_name := name p\<rparr>))"

text \<open>\<^verbatim>\<open>run\<close>, up to the saving of the transcript.\<close>

definition run :: "world \<Rightarrow> podcast \<Rightarrow> py_error + podcast" where
  "run w st =
     (case start w st of
        Inl e \<Rightarrow> Inl e
      | Inr st1 \<Rightarrow> turns w [0 ..< nat (num_turns st1)] st1)"

section \<open>Example data\<close>

text \<open>The roster of the examples: Alice, Bob and Carol.\<close>

definition example_roster :: "Persona list" where
  "example_roster =
     [new_persona ''Alice'' ''curious'' ''for'' 30 ''f'',
      new_persona ''Bob'' ''blunt'' ''against'' 41 ''m'',
      new_persona ''Carol'' ''calm'' ''undecided'' 35 ''f'']"


text \<open>
  A world in which every response is the same sentence with a directive for Bob, every
  bidder answers with the JSON object of the prompt's own example, and the generator
  always draws 0. The two library functions stay parameters.
\<close>

definition example_bid_reply :: string where
  \<open>example_bid_reply =
     ''{"importance": 8, "interrupt_after_word": "tech", "interruption_text": "Wait!"}''\<close>

definition example_world :: "(string \<Rightarrow> json option) \<Rightarrow> (json \<Rightarrow> py_error + int) \<Rightarrow> world" where
  "example_world d pint =
     \<lparr>clock = (\<lambda>n. ''12:00:00''),
      response_outcome = (\<lambda>spk history ct. Reply ''I agree. NEXT_SPEAKER: [Bob]''),
      bid_outcome = (\<lambda>bidder spk response history ct. Reply example_bid_reply),
      draw = (\<lambda>i. 0),
      decode = d,
      py_int = pint\<rparr>"

text \<open>Who said what, in transcript order: the entries without their timestamps.\<close>

definition spoken :: "podcast \<Rightarrow> (string \<times> string) list" where
  "spoken st = map (\<lambda>e. (speaker e, line e)) (transcript st)"

definition spoken_of :: "py_error + podcast \<Rightarrow> (string \<times> string) list option" where
  "spoken_of res = (case res of Inl e \<Rightarrow> None | Inr st \<Rightarrow> Some (spoken st))"

text \<open>
  Stand-ins for the two library functions in the examples: a decoder that returns the
  object of a strong bid for every text it is given, and an \<open>int\<close> that is exact on
  integers and booleans.
\<close>

definition example_decode :: "string \<Rightarrow> json option" where
  "example_decode js =
     Some (JObj [(''importance'', JInt 9), (''interrupt_after_word'', JStr ''so''),
                 (''interruption_text'', JStr ''Hold on'')])"

fun example_int :: "json \<Rightarrow> py_error + int" where
  "example_int (JInt n) = Inr n"
| "example_int (JBool b) = Inr (if b then 1 else 0)"
| "example_int (JStr s) = Inl ValueError"
| "example_int j = Inl TypeError"

section \<open>Properties of the arbitration\<close>

lemma interrupt_bids_set:
  "set (interrupt_bids bs) = {b. Some b \<in> set bs \<and> importance b \<ge> INTERRUPTION_THRESHOLD}"
  by (induction bs rule: interrupt_bids.induct) auto

text \<open>
  The first-maximum property of \<open>max_from\<close>: the result occurs in \<open>best # xs\<close>
  with every earlier element strictly smaller and every later element no greater.
\<close>

lemma max_from_first_max:
  "\<exists>pre post. b # xs = pre @ max_from k b xs # post
      \<and> (\<forall>x \<in> set pre. k x < k (max_from k b xs))
      \<and> (\<forall>x \<in> set post. k x \<le> k (max_from k b xs))"
proof (induction xs arbitrary: b)
  case Nil
  have "[b] = [] @ b # []" by simp
  then show ?case by (metis empty_iff empty_set max_from.simps(1))
next
  case (Cons x xs)
  define c where "c = (if k x > k b then x else b)"
  define w where "w = max_from k c xs"
  have mw: "max_from k b (x # xs) = w" by (simp add: w_def c_def)
  from Cons [of c] obtain pre post where d: "c # xs = pre @ w # post"
    and lt: "\<forall>y \<in> set pre. k y < k w" and le: "\<forall>y \<in> set post. k y \<le> k w"
    unfolding w_def by blast
  have "c \<in> set (pre @ w # post)" using d by (metis list.set_intros(1))
  then have cle: "k c \<le> k w" using lt le by fastforce
  show ?case
  proof (cases "k x > k b")
    case True
    then have "c = x" by (simp add: c_def)
    then have "b # x # xs = (b # pre) @ w # post" using d by simp
    moreover have "\<forall>y \<in> set (b # pre). k y < k w" using True cle lt \<open>c = x\<close> by auto
    ultimately show ?thesis unfolding mw using le by blast
  next
    case False
    then have cb: "c = b" by (simp add: c_def)
    have kx: "k x \<le> k w" using False cle cb by simp
    show ?thesis
    proof (cases pre)
      case Nil
      with d cb have "w = b" "post = xs" by simp_all
      then have "b # x # xs = [] @ w # (x # post)" by simp
      moreover have "\<forall>y \<in> set (x # post). k y \<le> k w" using kx le by simp
      ultimately show ?thesis unfolding mw by (metis empty_iff empty_set)
    next
      case (Cons p pre')
      with d cb have p: "p = b" and xs: "xs = pre' @ w # post" by simp_all
      have "k b < k w" using lt Cons p by simp
      then have "\<forall>y \<in> set (b # x # pre'). k y < k w"
        using False lt Cons by auto
      moreover have "b # x # xs = (b # x # pre') @ w # post" using xs by simp
      ultimately show ?thesis unfolding mw using le by blast
    qed
  qed
qed

lemma interrupt_bids_append:
  "interrupt_bids (xs @ ys) = interrupt_bids xs @ interrupt_bids ys"
  by (induction xs rule: interrupt_bids.induct) simp_all

lemma interrupt_bids_split:
  "interrupt_bids bs = pre' @ w # post' \<Longrightarrow>
     \<exists>pre post. bs = pre @ Some w # post \<and> interrupt_bids pre = pre'
        \<and> interrupt_bids post = post'"
proof (induction bs arbitrary: pre' rule: interrupt_bids.induct)
  case 1
  then show ?case by simp
next
  case (2 bs)
  then obtain pre post where "bs = pre @ Some w # post" "interrupt_bids pre = pre'"
    "interrupt_bids post = post'" by fastforce
  then have "None # bs = (None # pre) @ Some w # post \<and> interrupt_bids (None # pre) = pre'
     \<and> interrupt_bids post = post'" by simp
  then show ?case by blast
next
  case (3 b bs)
  show ?case
  proof (cases "importance b \<ge> INTERRUPTION_THRESHOLD")
    case False
    with 3 obtain pre post where "bs = pre @ Some w # post" "interrupt_bids pre = pre'"
      "interrupt_bids post = post'" by fastforce
    with False have "Some b # bs = (Some b # pre) @ Some w # post
       \<and> interrupt_bids (Some b # pre) = pre' \<and> interrupt_bids post = post'" by simp
    then show ?thesis by blast
  next
    case True
    show ?thesis
    proof (cases pre')
      case Nil
      with 3(3) True have "b = w" "interrupt_bids bs = post'" by simp_all
      then have "Some b # bs = [] @ Some w # bs \<and> interrupt_bids [] = pre'
         \<and> interrupt_bids bs = post'" using Nil by simp
      then show ?thesis by blast
    next
      case (Cons p ps)
      with 3(3) True have p: "p = b" and r: "interrupt_bids bs = ps @ w # post'" by simp_all
      from 3(1) [OF True r] obtain pre post where "bs = pre @ Some w # post"
        "interrupt_bids pre = ps" "interrupt_bids post = post'" by blast
      with True p Cons have "Some b # bs = (Some b # pre) @ Some w # post
         \<and> interrupt_bids (Some b # pre) = pre' \<and> interrupt_bids post = post'" by simp
      then show ?thesis by blast
    qed
  qed
qed

section \<open>Properties of the speaker selection\<close>

lemma fold_upd_map_of:
  "fold (\<lambda>p m. m(kf p \<mapsto> vf p)) ps m x =
     (case map_of (rev (map (\<lambda>p. (kf p, vf p)) ps)) x of Some y \<Rightarrow> Some y | None \<Rightarrow> m x)"
  by (induction ps arbitrary: m) (auto simp: map_of_append map_add_def split: option.splits)

lemma persona_map_map_of:
  "persona_map ps = map_of (rev (map (\<lambda>p. (normalize_name (name p), name p)) ps))"
  by (rule ext) (simp add: persona_map_def fold_upd_map_of split: option.splits)

lemma persona_map_SomeD:
  "persona_map ps x = Some n \<Longrightarrow> \<exists>p \<in> set ps. n = name p \<and> x = normalize_name (name p)"
  by (auto simp: persona_map_map_of dest!: map_of_SomeD)


lemma other_names_set: "set (other_names ps cur) = name ` set ps - {cur}"
  by (auto simp: other_names_def)

lemma other_names_distinct: "distinct (map name ps) \<Longrightarrow> distinct (other_names ps cur)"
  unfolding other_names_def by (induction ps) auto

lemma other_names_nonempty:
  assumes "2 \<le> length ps" "distinct (map name ps)"
  shows "other_names ps cur \<noteq> []"
proof -
  from assms(1) obtain p q rest where ps: "ps = p # q # rest"
    by (cases ps; cases "tl ps") auto
  with assms(2) have "name p \<noteq> name q" by simp
  then have "name p \<noteq> cur \<or> name q \<noteq> cur" by auto
  then show ?thesis by (auto simp: other_names_def ps)
qed

lemma random_choice_in:
  "xs \<noteq> [] \<Longrightarrow> random_choice k xs = Inr (xs ! (k mod length xs)) \<and> xs ! (k mod length xs) \<in> set xs"
  by (simp add: random_choice_def)

lemma select_next_speaker_cases:
  "select_next_speaker ps cur r k =
     (case nominated ps r of
        Some n \<Rightarrow> if n \<noteq> cur then Inr n else random_choice k (other_names ps cur)
      | None \<Rightarrow> random_choice k (other_names ps cur))"
  by (simp add: select_next_speaker_def nominated_def Let_def split: option.splits)

section \<open>Properties of the bid parser\<close>

text \<open>
  A match of the search pattern opens with two braces, the three repairs keep them, and
  the decoder refuses a second brace after the first: the parser returns \<open>None\<close> on every
  text, and so does every request for a bid.
\<close>

lemma search_braces_opens:
  "search_braces r = Some m \<Longrightarrow> \<exists>t. m = CHR ''{'' # CHR ''{'' # t"
  by (induction r rule: search_braces.induct) (auto split: if_splits option.splits)

lemma json_loads_two_braces: "json_loads d (CHR ''{'' # CHR ''{'' # t) = None"
  by (simp add: json_loads_def json_blank_def)

lemma repaired_opens:
  "\<exists>u. replace_bars (drop_trailing_commas (replace_quotes (CHR ''{'' # CHR ''{'' # t)))
        = CHR ''{'' # CHR ''{'' # u"
  by (simp add: replace_quotes_def)

lemma robust_json_parse_None: "robust_json_parse d r = None"
proof (cases "search_braces r")
  case None
  then show ?thesis by (simp add: robust_json_parse_def)
next
  case (Some m)
  then obtain t where "m = CHR ''{'' # CHR ''{'' # t" using search_braces_opens by blast
  with repaired_opens [of t] obtain u
    where "replace_bars (drop_trailing_commas (replace_quotes m)) = CHR ''{'' # CHR ''{'' # u"
    by blast
  with Some show ?thesis by (simp add: robust_json_parse_def json_loads_two_braces)
qed

lemma bid_for_interruption_no_bid: "bid_for_interruption d pint n outcome = Inr None"
  by (simp add: bid_for_interruption_def robust_json_parse_None)

lemma gather_all_Inr: "gather (map (\<lambda>x. Inr (f x)) xs) = Inr (map f xs)"
  by (induction xs) simp_all

lemma collect_bids_no_bids:
  "collect_bids w i r st =
     Inr (map (\<lambda>p. None) (filter (\<lambda>p. name p \<noteq> current_speaker_name st) (personas st)))"
  by (simp add: collect_bids_def bid_for_interruption_no_bid gather_all_Inr)

section \<open>Properties of the transcript and of a turn\<close>

lemma add_line_simps:
  "transcript (add_line w s l st) =
     transcript st @ [\<lparr>timestamp = clock w (length (transcript st)), speaker = s, line = l\<rparr>]"
  "personas (add_line w s l st) = personas st"
  "current_speaker_name (add_line w s l st) = current_speaker_name st"
  "injection_queue (add_line w s l st) = injection_queue st"
  "word_counts (add_line w s l st) = word_counts st"
  "turn_counts (add_line w s l st) = turn_counts st"
  "interruption_counts (add_line w s l st) = interruption_counts st"
  "line_idx (add_line w s l st) = line_idx st + 1"
  "conversation_history (add_line w s l st) = conversation_history st @ [s @ '': '' @ l]"
  by (simp_all add: add_line_def add_to_transcript_def)

lemma spoken_add_line: "spoken (add_line w s l st) = spoken st @ [(s, l)]"
  by (simp add: spoken_def add_line_simps)

lemma spoken_updates:
  "spoken (st\<lparr>current_speaker_name := n\<rparr>) = spoken st"
  "spoken (st\<lparr>injection_queue := q\<rparr>) = spoken st"
  "spoken (st\<lparr>line_idx := k\<rparr>) = spoken st"
  by (simp_all add: spoken_def)

lemma drain_as_director_simps:
  "spoken (drain_as_director w q st) = spoken st @ map (\<lambda>l. (''Director'', l)) q"
  "personas (drain_as_director w q st) = personas st"
  "current_speaker_name (drain_as_director w q st) = current_speaker_name st"
  "injection_queue (drain_as_director w q st) = []"
  "word_counts (drain_as_director w q st) = word_counts st"
  "turn_counts (drain_as_director w q st) = turn_counts st"
  by (induction w q st rule: drain_as_director.induct)
     (simp_all add: spoken_add_line add_line_simps spoken_updates)

lemma inject_after_drain:
  "inject_as_moderator w (drain_as_director w q st) = drain_as_director w q st"
  by (simp add: inject_as_moderator_def drain_as_director_simps)

lemma winning_bid_no_bids: "winning_bid (map (\<lambda>p. None) ps) = None"
proof -
  have "interrupt_bids (map (\<lambda>p. None) ps) = []" by (induction ps) simp_all
  then show ?thesis by (simp add: winning_bid_def)
qed

lemma commit_turn_interruption:
  "winning_bid all_bids = Some wb \<Longrightarrow>
     \<exists>st'. commit_turn w i r all_bids st = Inr st'
       \<and> spoken st' = spoken st @ [(current_speaker_name st, strip (split_marker_first r)),
                                    (interrupter_name wb, interruption_text wb)]
       \<and> current_speaker_name st' = interrupter_name wb"
  by (simp add: commit_turn_def Let_def spoken_add_line add_line_simps spoken_updates)

lemma commit_turn_plain:
  "winning_bid all_bids = None \<Longrightarrow> commit_turn w i r all_bids st = Inr st' \<Longrightarrow>
     spoken st' = spoken st @ [(current_speaker_name st, strip (remove_directive r))]
     \<and> select_next_speaker (personas st) (current_speaker_name st) r (draw w i)
         = Inr (current_speaker_name st')"
  by (auto simp: commit_turn_def Let_def spoken_add_line add_line_simps spoken_updates
      split: sum.splits)

lemma text_before_prefix: "\<exists>rest. s = text_before P s @ rest \<and> (rest = [] \<or> P rest)"
  by (induction s) auto

lemma select_next_speaker_total:
  assumes "2 \<le> length ps" and "distinct (map name ps)"
  shows "\<exists>n. select_next_speaker ps cur r k = Inr n"
proof -
  have "other_names ps cur \<noteq> []" using assms by (rule other_names_nonempty)
  then have "\<exists>n. random_choice k (other_names ps cur) = Inr n"
    by (simp add: random_choice_def)
  then show ?thesis
    by (auto simp: select_next_speaker_cases split: option.splits)
qed

lemma commit_turn_no_winner_total:
  assumes "winning_bid all_bids = None" "2 \<le> length (personas st)"
    "distinct (map name (personas st))"
  shows "\<exists>st'. commit_turn w i r all_bids st = Inr st'"
proof -
  from select_next_speaker_total [OF assms(2,3)] obtain n
    where "select_next_speaker (personas st) (current_speaker_name st) r (draw w i) = Inr n"
    by blast
  then show ?thesis using assms(1)
    by (simp add: commit_turn_def Let_def add_line_simps)
qed

lemma add_to_transcript_analytics:
  "word_counts (add_to_transcript now s l k st) = word_counts st"
  "turn_counts (add_to_transcript now s l k st) = turn_counts st"
  "interruption_counts (add_to_transcript now s l k st) = interruption_counts st"
  by (simp_all add: add_to_transcript_def)

lemma update_analytics_word_count:
  "get0 (word_counts (update_analytics s l st)) s = get0 (word_counts st) s + int (length (split_ws l))"
  by (simp add: update_analytics_def Let_def get0_def)

lemma update_analytics_turn_count:
  "get0 (turn_counts (update_analytics s l st)) s =
     get0 (turn_counts st) s + (if s \<noteq> ''Moderator'' \<and> s \<noteq> ''Director'' then 1 else 0)"
  by (simp add: update_analytics_def Let_def get0_def)

text \<open>
  What a turn adds to the transcript, for a roster of at least two distinct names: one
  line of the Director for each queued line, then one line of the current speaker.
\<close>

lemma turn_speakers:
  assumes "2 \<le> length (personas st)"
    and "distinct (map name (personas st))"
    and "current_speaker_name st \<in> set (map name (personas st))"
  shows "\<exists>st'. turn w i st = Inr st'
           \<and> map fst (spoken st') =
               map fst (spoken st) @ replicate (length (injection_queue st)) ''Director''
                 @ [current_speaker_name st]
           \<and> injection_queue st' = []"
proof -
  let ?st = "drain_as_director w (injection_queue st) st"
  let ?r = "call_ollama (response_outcome w (current_speaker_name ?st) (conversation_history ?st) (i + 1))"
  let ?bs = "map (\<lambda>p. None :: InterruptionBid option)
               (filter (\<lambda>p. name p \<noteq> current_speaker_name ?st) (personas ?st))"
  have p: "personas ?st = personas st" and c: "current_speaker_name ?st = current_speaker_name st"
    and q: "injection_queue ?st = []"
    by (simp_all add: drain_as_director_simps)
  have nb: "winning_bid ?bs = None" by (rule winning_bid_no_bids)
  have t: "turn w i st = commit_turn w i ?r ?bs ?st"
    using assms(3) p c by (simp add: turn_def Let_def inject_after_drain collect_bids_no_bids)
  from commit_turn_no_winner_total [OF nb, of ?st w i ?r] assms(1,2) p
  obtain st' where st': "commit_turn w i ?r ?bs ?st = Inr st'" by auto
  from commit_turn_plain [OF nb st']
  have s: "spoken st' = spoken ?st @ [(current_speaker_name ?st, strip (remove_directive ?r))]"
    by simp
  have "injection_queue st' = []"
    using st' nb q by (auto simp: commit_turn_def Let_def add_line_simps split: sum.splits)
  moreover have "map fst (spoken st') =
      map fst (spoken st) @ replicate (length (injection_queue st)) ''Director''
        @ [current_speaker_name st]"
    unfolding s by (simp add: drain_as_director_simps map_replicate_const comp_def)
  ultimately show ?thesis using t st' by simp
qed

lemma example_roster_names: "map name example_roster = [''Alice'', ''Bob'', ''Carol'']"
  by (simp add: example_roster_def new_persona_def)

section \<open>Properties of the directive pattern\<close>



















section \<open>Claims\<close>

text \<open>
  C1. For every list of bids collected in one turn, an interruption occurs if and only if
  some bid has importance at least 6. When it occurs, the winner is a bid of the list of
  maximal importance, and every bid requested before it has strictly smaller importance:
  among bids of equal maximal importance the first in the fan-out order wins.
\<close>

theorem winning_bid_first_maximal:
  "(winning_bid all_bids \<noteq> None \<longleftrightarrow> (\<exists>b. Some b \<in> set all_bids \<and> importance b \<ge> 6))
   \<and> (\<forall>w. winning_bid all_bids = Some w \<longrightarrow>
         (\<exists>pre post. all_bids = pre @ Some w # post
            \<and> (\<forall>b. Some b \<in> set pre \<longrightarrow> importance b < importance w)
            \<and> (\<forall>b. Some b \<in> set post \<longrightarrow> importance b \<le> importance w)))"
proof (intro conjI allI impI)
  have "winning_bid all_bids \<noteq> None \<longleftrightarrow> set (interrupt_bids all_bids) \<noteq> {}"
    by (simp add: winning_bid_def split: list.splits)
  then show "winning_bid all_bids \<noteq> None \<longleftrightarrow>
      (\<exists>b. Some b \<in> set all_bids \<and> importance b \<ge> 6)"
    by (auto simp: interrupt_bids_set INTERRUPTION_THRESHOLD_def)
next
  fix w assume "winning_bid all_bids = Some w"
  then obtain b bs where ib: "interrupt_bids all_bids = b # bs" and w: "w = max_from importance b bs"
    by (auto simp: winning_bid_def split: list.splits)
  from max_from_first_max [of b bs importance] w obtain pre' post'
    where d: "b # bs = pre' @ w # post'"
      and lt: "\<forall>x \<in> set pre'. importance x < importance w"
      and le: "\<forall>x \<in> set post'. importance x \<le> importance w" by blast
  from interrupt_bids_split [of all_bids pre' w post'] ib d obtain pre post
    where s: "all_bids = pre @ Some w # post" and p1: "interrupt_bids pre = pre'"
      and p2: "interrupt_bids post = post'" by auto
  have "w \<in> set (interrupt_bids all_bids)" using ib d by simp
  then have big: "importance w \<ge> INTERRUPTION_THRESHOLD" by (simp add: interrupt_bids_set)
  have a: "\<forall>b. Some b \<in> set pre \<longrightarrow> importance b < importance w"
  proof (intro allI impI)
    fix c assume c: "Some c \<in> set pre"
    show "importance c < importance w"
    proof (cases "importance c \<ge> INTERRUPTION_THRESHOLD")
      case True
      with c have "c \<in> set pre'" using p1 interrupt_bids_set [of pre] by auto
      with lt show ?thesis by simp
    next
      case False
      with big show ?thesis by simp
    qed
  qed
  have b: "\<forall>b. Some b \<in> set post \<longrightarrow> importance b \<le> importance w"
  proof (intro allI impI)
    fix c assume c: "Some c \<in> set post"
    show "importance c \<le> importance w"
    proof (cases "importance c \<ge> INTERRUPTION_THRESHOLD")
      case True
      with c have "c \<in> set post'" using p2 interrupt_bids_set [of post] by auto
      with le show ?thesis by simp
    next
      case False
      with big show ?thesis by simp
    qed
  qed
  from s a b show "\<exists>pre post. all_bids = pre @ Some w # post
            \<and> (\<forall>b. Some b \<in> set pre \<longrightarrow> importance b < importance w)
            \<and> (\<forall>b. Some b \<in> set post \<longrightarrow> importance b \<le> importance w)"
    by blast
qed

theorem winning_bid_first_maximal_witness:
  "winning_bid
     [Some \<lparr>importance = 8, interrupt_after_word = ''tech'', interruption_text = ''Wait!'',
            interrupter_name = ''A''\<rparr>,
      None,
      Some \<lparr>importance = 9, interrupt_after_word = ''so'', interruption_text = ''Hold on'',
            interrupter_name = ''C''\<rparr>,
      Some \<lparr>importance = 9, interrupt_after_word = ''so'', interruption_text = ''No way'',
            interrupter_name = ''D''\<rparr>,
      Some \<lparr>importance = 5, interrupt_after_word = [], interruption_text = ''Hm'',
            interrupter_name = ''E''\<rparr>]
   = Some \<lparr>importance = 9, interrupt_after_word = ''so'', interruption_text = ''Hold on'',
            interrupter_name = ''C''\<rparr>
   \<and> (\<exists>pre post.
        [Some \<lparr>importance = 8, interrupt_after_word = ''tech'', interruption_text = ''Wait!'',
               interrupter_name = ''A''\<rparr>,
         None,
         Some \<lparr>importance = 9, interrupt_after_word = ''so'', interruption_text = ''Hold on'',
               interrupter_name = ''C''\<rparr>,
         Some \<lparr>importance = 9, interrupt_after_word = ''so'', interruption_text = ''No way'',
               interrupter_name = ''D''\<rparr>,
         Some \<lparr>importance = 5, interrupt_after_word = [], interruption_text = ''Hm'',
               interrupter_name = ''E''\<rparr>]
        = pre @ Some \<lparr>importance = 9, interrupt_after_word = ''so'',
                 interruption_text = ''Hold on'', interrupter_name = ''C''\<rparr> # post
        \<and> (\<forall>b. Some b \<in> set pre \<longrightarrow> importance b < 9)
        \<and> (\<forall>b. Some b \<in> set post \<longrightarrow> importance b \<le> 9))"
proof -
  let ?c = "\<lparr>importance = 9, interrupt_after_word = ''so'', interruption_text = ''Hold on'',
            interrupter_name = ''C''\<rparr>"
  let ?bs = "[Some \<lparr>importance = 8, interrupt_after_word = ''tech'', interruption_text = ''Wait!'',
            interrupter_name = ''A''\<rparr>,
      None, Some ?c,
      Some \<lparr>importance = 9, interrupt_after_word = ''so'', interruption_text = ''No way'',
            interrupter_name = ''D''\<rparr>,
      Some \<lparr>importance = 5, interrupt_after_word = [], interruption_text = ''Hm'',
            interrupter_name = ''E''\<rparr>]"
  have w: "winning_bid ?bs = Some ?c"
    by (simp add: winning_bid_def INTERRUPTION_THRESHOLD_def)
  from winning_bid_first_maximal [of ?bs] w
  have "\<exists>pre post. ?bs = pre @ Some ?c # post
        \<and> (\<forall>b. Some b \<in> set pre \<longrightarrow> importance b < importance ?c)
        \<and> (\<forall>b. Some b \<in> set post \<longrightarrow> importance b \<le> importance ?c)"
    by blast
  then show ?thesis using w by simp
qed

text \<open>
  C8. For every response, every roster of at least two personas (with distinct names) and
  every current speaker, the selection step returns a persona's name that is not the
  current speaker's. A directive that names another persona selects that persona; in every
  other case (no directive, or one that names nobody or the current speaker) the result is
  the entry at the generator's index in the list of all other personas, which has no
  duplicates: a uniform draw gives a uniform choice among them.
\<close>

theorem select_next_speaker_never_current:
  assumes "2 \<le> length ps" and "distinct (map name ps)"
  shows "\<exists>n. select_next_speaker ps cur r k = Inr n \<and> n \<noteq> cur \<and> n \<in> name ` set ps
           \<and> (\<forall>m. nominated ps r = Some m \<and> m \<noteq> cur \<longrightarrow> n = m)
           \<and> (nominated ps r = None \<or> nominated ps r = Some cur \<longrightarrow>
                n = other_names ps cur ! (k mod length (other_names ps cur)))
           \<and> distinct (other_names ps cur)
           \<and> set (other_names ps cur) = name ` set ps - {cur}"
proof -
  let ?os = "other_names ps cur"
  have ne: "?os \<noteq> []" using assms by (rule other_names_nonempty)
  have rc: "random_choice k ?os = Inr (?os ! (k mod length ?os))"
    and mem: "?os ! (k mod length ?os) \<in> set ?os"
    using random_choice_in [OF ne] by simp_all
  from mem have fb: "?os ! (k mod length ?os) \<noteq> cur" "?os ! (k mod length ?os) \<in> name ` set ps"
    by (simp_all add: other_names_set)
  show ?thesis
  proof (cases "nominated ps r")
    case None
    then show ?thesis
      using rc fb assms(2) by (simp add: select_next_speaker_cases other_names_set other_names_distinct)
  next
    case (Some m)
    then obtain g where "persona_map ps (normalize_name (strip g)) = Some m"
      by (auto simp: nominated_def split: option.splits)
    then have "m \<in> name ` set ps" using persona_map_SomeD by blast
    then show ?thesis
      using Some rc fb assms(2)
      by (simp add: select_next_speaker_cases other_names_set other_names_distinct)
  qed
qed

theorem select_next_speaker_never_current_witness:
  "2 \<le> length example_roster \<and> distinct (map name example_roster)
   \<and> select_next_speaker example_roster ''Alice'' ''Me again. NEXT_SPEAKER: Alice'' 1 = Inr ''Carol''
   \<and> nominated example_roster ''Me again. NEXT_SPEAKER: Alice'' = Some ''Alice''
   \<and> other_names example_roster ''Alice'' = [''Bob'', ''Carol'']"
proof -
  have h1: "2 \<le> length example_roster" by (simp add: example_roster_def)
  have h2: "distinct (map name example_roster)" by (simp add: example_roster_def new_persona_def)
  have n: "nominated example_roster ''Me again. NEXT_SPEAKER: Alice'' = Some ''Alice''"
    by code_simp
  have o: "other_names example_roster ''Alice'' = [''Bob'', ''Carol'']"
    by (simp add: other_names_def example_roster_def new_persona_def)
  from select_next_speaker_never_current [OF h1 h2, of "''Alice''" "''Me again. NEXT_SPEAKER: Alice''" 1]
  have "select_next_speaker example_roster ''Alice'' ''Me again. NEXT_SPEAKER: Alice'' 1 = Inr ''Carol''"
    using n o by auto
  with h1 h2 n o show ?thesis by simp
qed

text \<open>
  C2. A request for a bid never raises and never yields a bid, whatever the model call
  behind it did: a call that failed (another status than 200, or an exception) and a
  reply that cannot be parsed both give "no bid". So the collection of the bids of a turn
  returns "no bid" for every other persona, and a turn over a roster of at least two
  distinct names whose speaker is in the roster runs to its end.
\<close>

theorem failed_bid_is_no_bid:
  assumes "2 \<le> length (personas st)"
    and "distinct (map name (personas st))"
    and "current_speaker_name st \<in> set (map name (personas st))"
  shows "bid_for_interruption (decode w) (py_int w) n outcome = Inr None
         \<and> collect_bids w i r st =
             Inr (map (\<lambda>p. None) (filter (\<lambda>p. name p \<noteq> current_speaker_name st) (personas st)))
         \<and> (\<exists>st'. turn w i st = Inr st')"
proof (intro conjI)
  show "bid_for_interruption (decode w) (py_int w) n outcome = Inr None"
    by (rule bid_for_interruption_no_bid)
  show "collect_bids w i r st =
      Inr (map (\<lambda>p. None) (filter (\<lambda>p. name p \<noteq> current_speaker_name st) (personas st)))"
    by (rule collect_bids_no_bids)
  let ?st = "drain_as_director w (injection_queue st) st"
  have p: "personas ?st = personas st" and c: "current_speaker_name ?st = current_speaker_name st"
    by (simp_all add: drain_as_director_simps)
  have "\<exists>st'. commit_turn w i resp (map (\<lambda>p. None) bs) ?st = Inr st'" for resp and bs :: "Persona list"
    using commit_turn_no_winner_total [of "map (\<lambda>p. None) bs" ?st w i resp] assms(1,2) p
    by (simp add: winning_bid_no_bids)
  then show "\<exists>st'. turn w i st = Inr st'"
    using assms(3) p c
    by (simp add: turn_def Let_def inject_after_drain collect_bids_no_bids)
qed

theorem failed_bid_is_no_bid_witness:
  "2 \<le> length (personas (new_podcast ''cats'' example_roster 3 []))
   \<and> distinct (map name (personas (new_podcast ''cats'' example_roster 3 [])))
   \<and> bid_for_interruption example_decode example_int ''Bob'' (BadStatus 503) = Inr None
   \<and> bid_for_interruption example_decode example_int ''Bob'' Raised = Inr None
   \<and> (\<exists>st'. turn (example_world example_decode example_int) 0
              ((new_podcast ''cats'' example_roster 3 [])\<lparr>current_speaker_name := ''Alice''\<rparr>) = Inr st')"
proof -
  let ?w = "example_world example_decode example_int"
  let ?st = "(new_podcast ''cats'' example_roster 3 [])\<lparr>current_speaker_name := ''Alice''\<rparr>"
  have p: "personas ?st = example_roster" by (simp add: new_podcast_def)
  have h1: "2 \<le> length (personas ?st)" unfolding p by (simp add: example_roster_def)
  have h2: "distinct (map name (personas ?st))" unfolding p by (simp add: example_roster_names)
  have h3: "current_speaker_name ?st \<in> set (map name (personas ?st))"
    unfolding p by (simp add: example_roster_names)
  have dw: "decode ?w = example_decode" "py_int ?w = example_int"
    by (simp_all add: example_world_def)
  from failed_bid_is_no_bid [OF h1 h2 h3, of ?w "''Bob''" "BadStatus 503"]
    failed_bid_is_no_bid [OF h1 h2 h3, of ?w "''Bob''" Raised 0]
  show ?thesis using h1 h2 dw p by simp
qed

text \<open>
  C3, at a failing input. Two lines are queued and the session has two turns. The first
  turn takes both lines at once, as lines of the Director, and then goes on with the
  response of the speaker; the speaker changes from Alice to Bob. The claim has one
  line a turn, as lines of the Moderator, and nothing else in these two turns.
\<close>

theorem queued_lines_all_taken_in_one_turn:
  "spoken_of (run (example_world d pint)
                (new_podcast ''cats'' example_roster 2 [''First'', ''Second'']))
     = Some [(''Moderator'', ''Welcome! Today'' @ [CHR 0x27] @ ''s topic is: cats.''),
             (''Director'', ''First''),
             (''Director'', ''Second''),
             (''Alice'', ''I agree.''),
             (''Bob'', ''I agree.'')]"
  by code_simp

text \<open>
  C4, at a failing input. The reply is the JSON object of the prompt's own example, with
  the three fields. The search pattern asks for two opening braces, finds none, and the
  request yields "no bid", whatever the decoder and \<open>int\<close> would have done.
\<close>

theorem well_formed_bid_yields_no_bid:
  "search_braces example_bid_reply = None
   \<and> bid_for_interruption d pint ''Bob'' (Reply example_bid_reply) = Inr None
   \<and> bid_for_interruption example_decode example_int ''Bob'' (Reply example_bid_reply) = Inr None"
  by (simp add: example_bid_reply_def bid_for_interruption_def robust_json_parse_def)

text \<open>
  C5, at a failing input. One line is queued and the session has one turn. No persona
  bids, so there is no interruption, and the turn adds two entries: the line of the
  Director and the response of Alice.
\<close>

theorem injection_turn_appends_two:
  "spoken_of (run (example_world d pint)
                (new_podcast ''cats'' example_roster 1 [''Stay on topic'']))
     = Some [(''Moderator'', ''Welcome! Today'' @ [CHR 0x27] @ ''s topic is: cats.''),
             (''Director'', ''Stay on topic''),
             (''Alice'', ''I agree.'')]
   \<and> collect_bids (example_world d pint) 0 ''I agree. NEXT_SPEAKER: [Bob]''
        ((new_podcast ''cats'' example_roster 1 [])\<lparr>current_speaker_name := ''Alice''\<rparr>)
       = Inr [None, None]"
  by code_simp

text \<open>
  C9, at a failing input. Appending the line \<^verbatim>\<open>hello world\<close> of Alice leaves her word count
  and her turn count at 0: \<^verbatim>\<open>_add_to_transcript\<close> does not call \<^verbatim>\<open>_update_analytics\<close>, which
  would have counted the two words.
\<close>

theorem append_leaves_analytics:
  "get0 (word_counts (add_to_transcript ''12:00:00'' ''Alice'' ''hello world'' 1
           (new_podcast ''cats'' example_roster 3 []))) ''Alice'' = 0
   \<and> get0 (turn_counts (add_to_transcript ''12:00:00'' ''Alice'' ''hello world'' 1
           (new_podcast ''cats'' example_roster 3 []))) ''Alice'' = 0
   \<and> int (length (split_ws ''hello world'')) = 2
   \<and> get0 (word_counts (update_analytics ''Alice'' ''hello world''
           (new_podcast ''cats'' example_roster 3 []))) ''Alice'' = 2"
  by code_simp

text \<open>
  C10. For a session with a non-empty roster, after the welcome line of the Moderator the
  current speaker is the first persona of the roster, and the turns start from there.
\<close>

theorem first_speaker_is_first_persona:
  assumes "ps \<noteq> []"
  shows "\<exists>st. start w (new_podcast tp ps n q) = Inr st
           \<and> current_speaker_name st = name (hd ps)
           \<and> map speaker (transcript st) = [''Moderator'']
           \<and> run w (new_podcast tp ps n q) = turns w [0 ..< nat n] st"
  using assms
  by (cases ps) (simp_all add: start_def run_def new_podcast_def add_line_def add_to_transcript_def Let_def)

theorem first_speaker_is_first_persona_witness:
  "example_roster \<noteq> []
   \<and> (\<exists>st. start (example_world example_decode example_int) (new_podcast ''cats'' example_roster 3 []) = Inr st
          \<and> current_speaker_name st = ''Alice''
          \<and> map speaker (transcript st) = [''Moderator''])"
proof -
  have h: "example_roster \<noteq> []" by (simp add: example_roster_def)
  have n: "name (hd example_roster) = ''Alice''" by (simp add: example_roster_def new_persona_def)
  from first_speaker_is_first_persona [OF h, of "example_world example_decode example_int" "''cats''" 3 "[]"]
  show ?thesis using h n by auto
qed





end
